theory Spec2Isabelle
  imports
    Complex_Main
    "HOL-Library.Sublist"
    "HOL-Library.AList"
    "HOL-Library.Multiset"
    "HOL-Library.Char_ord"
    "HOL-Library.List_Lexorder"
begin

section \<open>Python strings\<close>

text \<open>
  A Python \<open>str\<close> is modelled as a \<^typ>\<open>string\<close> whose characters are the code points
  U+0000 to U+00FF, one \<^typ>\<open>char\<close> per code point (\<^term>\<open>of_char c :: nat\<close> is the code
  point). Text with code points above U+00FF is outside the model. On this range
  \<open>str.lower\<close> maps one character to one character, and the classes \<open>\s\<close> and \<open>\w\<close> of
  \<open>re\<close> and the whitespace of \<open>str.strip\<close> are the sets written out below.
\<close>

definition is_space :: "char \<Rightarrow> bool" where
  \<comment> \<open>\<open>str.isspace\<close>, which is also \<open>\s\<close> of \<open>re\<close> on a \<open>str\<close> pattern\<close>
  "is_space c =
     (let n = (of_char c :: nat)
      in (9 \<le> n \<and> n \<le> 13) \<or> (28 \<le> n \<and> n \<le> 32) \<or> n = 133 \<or> n = 160)"

definition is_word :: "char \<Rightarrow> bool" where
  \<comment> \<open>\<open>\w\<close> of \<open>re\<close> on a \<open>str\<close> pattern: alphanumeric, or the underscore\<close>
  "is_word c =
     (let n = (of_char c :: nat)
      in (48 \<le> n \<and> n \<le> 57) \<or> (65 \<le> n \<and> n \<le> 90) \<or> n = 95 \<or> (97 \<le> n \<and> n \<le> 122)
         \<or> n = 170 \<or> n = 178 \<or> n = 179 \<or> n = 181 \<or> n = 185 \<or> n = 186
         \<or> (188 \<le> n \<and> n \<le> 190)
         \<or> (192 \<le> n \<and> n \<le> 214) \<or> (216 \<le> n \<and> n \<le> 246) \<or> (248 \<le> n \<and> n \<le> 255))"

definition lower_char :: "char \<Rightarrow> char" where
  "lower_char c =
     (let n = (of_char c :: nat)
      in if (65 \<le> n \<and> n \<le> 90) \<or> (192 \<le> n \<and> n \<le> 214) \<or> (216 \<le> n \<and> n \<le> 222)
         then char_of (n + 32) else c)"

definition lower :: "string \<Rightarrow> string" where
  \<comment> \<open>\<open>s.lower()\<close>\<close>
  "lower s = map lower_char s"

definition strip :: "string \<Rightarrow> string" where
  \<comment> \<open>\<open>s.strip()\<close>: whitespace removed at both ends\<close>
  "strip s = rev (dropWhile is_space (rev (dropWhile is_space s)))"

fun startswith :: "string \<Rightarrow> string \<Rightarrow> bool" where
  \<comment> \<open>\<open>s.startswith(p)\<close>\<close>
  "startswith s [] = True"
| "startswith [] (p # ps) = False"
| "startswith (c # s) (p # ps) = (c = p \<and> startswith s ps)"

fun str_in :: "string \<Rightarrow> string \<Rightarrow> bool" where
  \<comment> \<open>\<open>x in s\<close>: \<open>x\<close> is a substring of \<open>s\<close>\<close>
  "str_in x [] = (x = [])"
| "str_in x (c # s) = (startswith (c # s) x \<or> str_in x s)"

definition any_in :: "string \<Rightarrow> string list \<Rightarrow> bool" where
  \<comment> \<open>\<open>any(x in s for x in keywords)\<close>\<close>
  "any_in s keywords = list_ex (\<lambda>x. str_in x s) keywords"

section \<open>The matcher (habitpet\_extractor.py)\<close>

definition normalize_text :: "string \<Rightarrow> string" where
  \<comment> \<open>\<open>re.sub(r'[^\w\s]', ' ', text.lower()).strip()\<close>\<close>
  "normalize_text text =
     strip (map (\<lambda>c. if is_word c \<or> is_space c then c else CHR '' '') (lower text))"

datatype py_error = ZeroDivisionError

text \<open>
  The three scorers of \<open>rapidfuzz.fuzz\<close> and \<open>rapidfuzz.process.extractOne\<close> are code of a
  library, not of this repository. \<open>extractOne\<close> is a parameter of the model: given the
  scorer, the query, the choices and the score cutoff it returns \<open>None\<close> or a triple
  (choice, score, index). Scores are Python floats; they are modelled as rationals, so
  that \<open>100.0\<close>, \<open>95.0\<close> and \<open>90.0\<close> are exact and the quotient of strategy 3 is the exact
  quotient, without the rounding of the float division.
\<close>

datatype scorer = token_set_ratio | partial_ratio | token_sort_ratio

type_synonym extract_one =
  "scorer \<Rightarrow> string \<Rightarrow> string list \<Rightarrow> rat \<Rightarrow> (string \<times> rat \<times> nat) option"

fun exact_match :: "string \<Rightarrow> string list \<Rightarrow> (string \<times> rat) option" where
  \<comment> \<open>Strategy 1: the first loop over the whitelist\<close>
  "exact_match desc_normalized [] = None"
| "exact_match desc_normalized (item # whitelist) =
     (if desc_normalized = normalize_text item then Some (item, 100)
      else exact_match desc_normalized whitelist)"

fun starts_with_match :: "string \<Rightarrow> string list \<Rightarrow> (string \<times> rat) option" where
  \<comment> \<open>Strategy 2: the second loop\<close>
  "starts_with_match desc_normalized [] = None"
| "starts_with_match desc_normalized (item # whitelist) =
     (let item_normalized = normalize_text item
      in if startswith desc_normalized item_normalized
            \<or> startswith item_normalized desc_normalized
         then Some (item, 95)
         else starts_with_match desc_normalized whitelist)"

fun contains_match :: "string \<Rightarrow> string list \<Rightarrow> py_error + (string \<times> rat) option" where
  \<comment> \<open>Strategy 3: the third loop; the division raises when the description is empty\<close>
  "contains_match desc_normalized [] = Inr None"
| "contains_match desc_normalized (item # whitelist) =
     (let item_normalized = normalize_text item
      in if str_in item_normalized desc_normalized \<or> str_in desc_normalized item_normalized
         then (if length desc_normalized = 0 then Inl ZeroDivisionError
               else Inr (Some (item,
                      min (of_nat (length item_normalized) / of_nat (length desc_normalized) * 90)
                          90)))
         else contains_match desc_normalized whitelist)"

definition better ::
  "(string \<times> rat \<times> nat) option \<Rightarrow> (string \<times> rat \<times> nat) option \<times> rat
     \<Rightarrow> (string \<times> rat \<times> nat) option \<times> rat" where
  \<comment> \<open>\<open>if match and match[1] > best_score: best_match = match; best_score = match[1]\<close>\<close>
  "better match best =
     (case match of
        None \<Rightarrow> best
      | Some m \<Rightarrow> if fst (snd m) > snd best then (Some m, fst (snd m)) else best)"

definition fuzzy_match :: "extract_one \<Rightarrow> string \<Rightarrow> string list \<Rightarrow> (string \<times> rat) option" where
  \<comment> \<open>Strategy 4: three calls of \<open>process.extractOne\<close>, each with \<open>score_cutoff=60\<close>\<close>
  "fuzzy_match extractOne desc_normalized whitelist =
     (let best = (None, 0);
          match1 = extractOne token_set_ratio desc_normalized whitelist 60;
          best = better match1 best;
          match2 = extractOne partial_ratio desc_normalized whitelist 60;
          best = better match2 best;
          match3 = extractOne token_sort_ratio desc_normalized whitelist 60;
          best = better match3 best
      in case fst best of
           Some best_match \<Rightarrow> Some (fst best_match, fst (snd best_match))
         | None \<Rightarrow> None)"

definition match_whitelist_item ::
  "extract_one \<Rightarrow> string \<Rightarrow> string list \<Rightarrow> py_error + (string \<times> rat) option" where
  "match_whitelist_item extractOne description whitelist =
     (let desc_normalized = normalize_text description
      in case exact_match desc_normalized whitelist of
           Some r \<Rightarrow> Inr (Some r)
         | None \<Rightarrow>
             (case starts_with_match desc_normalized whitelist of
                Some r \<Rightarrow> Inr (Some r)
              | None \<Rightarrow>
                  (case contains_match desc_normalized whitelist of
                     Inl e \<Rightarrow> Inl e
                   | Inr (Some r) \<Rightarrow> Inr (Some r)
                   | Inr None \<Rightarrow> Inr (fuzzy_match extractOne desc_normalized whitelist))))"

section \<open>The classifier (habitpet\_extractor.py)\<close>

definition map_category :: "string \<Rightarrow> string \<Rightarrow> string" where
  "map_category description whitelist_item =
     (let desc_lower = lower description;
          item_lower = lower whitelist_item
      in
        if any_in item_lower
          [''chicken'', ''turkey'', ''poultry'']
        then ''Protein - Poultry''
        else if any_in item_lower
          [''beef'', ''pork'', ''meat'', ''steak'', ''brisket'', ''ribeye'', ''sirloin'',
           ''sausage'', ''bacon'', ''ham'', ''pepperoni'', ''salami'', ''hot dog'',
           ''bratwurst'', ''jerky'', ''gyro'', ''shawarma'', ''meatloaf'', ''lasagna'']
        then ''Protein - Meat''
        else if any_in item_lower
          [''salmon'', ''tuna'', ''shrimp'', ''fish'', ''cod'', ''tilapia'', ''sardines'',
           ''mackerel'', ''sushi'', ''poke'', ''clam'', ''crab'', ''mussels'', ''calamari'',
           ''tempura'']
        then ''Protein - Seafood''
        else if any_in item_lower
          [''tofu'', ''tempeh'', ''lentils'', ''chickpeas'', ''hummus'', ''falafel'',
           ''edamame'', ''beans'', ''impossible'', ''beyond'', ''vegan'', ''veggie burger'',
           ''seitan'', ''soy'']
        then ''Protein - Plant-Based''
        else if any_in item_lower
          [''egg'', ''omelette'', ''scrambled'']
        then ''Protein - Eggs''
        else if any_in item_lower
          [''rice'', ''quinoa'', ''couscous'', ''farro'', ''barley'', ''oatmeal'', ''oats'',
           ''granola'', ''pasta'', ''spaghetti'', ''penne'', ''fettuccine'', ''macaroni'',
           ''lasagna'', ''ravioli'', ''gnocchi'', ''noodles'', ''ramen'', ''soba'', ''udon'',
           ''tortillas'', ''pita'', ''naan'', ''bagel'', ''bread'', ''roll'', ''sourdough'']
        then ''Grains & Starches''
        else if any_in item_lower
          [''broccoli'', ''cauliflower'', ''carrots'', ''celery'', ''spinach'', ''kale'',
           ''lettuce'', ''greens'', ''peppers'', ''tomatoes'', ''cucumbers'', ''avocado'',
           ''onions'', ''potatoes'', ''sweet potatoes'', ''zucchini'', ''squash'',
           ''mushrooms'', ''eggplant'', ''cabbage'', ''brussels'', ''kimchi'', ''sauerkraut'',
           ''beans'', ''peas'', ''corn'', ''asparagus'', ''bok choy'', ''pickles'',
           ''jalapeno'', ''salsa'', ''guacamole'', ''coleslaw'', ''artichokes'', ''seaweed'',
           ''beets'', ''radish'', ''pumpkin'', ''turnips'']
        then ''Vegetables''
        else if any_in item_lower
          [''apple'', ''banana'', ''orange'', ''mandarin'', ''grapes'', ''strawberries'',
           ''blueberries'', ''raspberries'', ''blackberries'', ''mango'', ''pineapple'',
           ''watermelon'', ''cantaloupe'', ''honeydew'', ''kiwi'', ''peaches'', ''plums'',
           ''nectarines'', ''pomegranate'', ''pears'', ''cherries'', ''guava'', ''papaya'',
           ''passion fruit'', ''cranberries'', ''raisins'', ''dates'', ''figs'', ''lemon'',
           ''lime'', ''grapefruit'']
        then ''Fruits''
        else if any_in item_lower
          [''milk'', ''cream'', ''yogurt'', ''cheese'', ''cottage'', ''butter'', ''margarine'',
           ''ice cream'', ''frozen yogurt'', ''ricotta'', ''parmesan'', ''feta'',
           ''goat cheese'', ''kefir'', ''whipped cream'']
        then ''Dairy & Alternatives''
        else if any_in item_lower
          [''pancakes'', ''waffles'', ''french toast'', ''breakfast'', ''hash browns'',
           ''chia pudding'', ''cereal'']
        then ''Breakfast''
        else if any_in item_lower
          [''sandwich'', ''wrap'', ''burrito'', ''quesadilla'', ''tacos'', ''pita'']
        then ''Sandwiches & Wraps''
        else if any_in item_lower
          [''frozen'', ''microwave'', ''bento'', ''tv dinner'', ''heat and eat'']
        then ''Frozen & Ready Meals''
        else if any_in item_lower
          [''chips'', ''crackers'', ''pretzels'', ''popcorn'', ''nuts'', ''almonds'',
           ''walnuts'', ''cashews'', ''pistachios'', ''peanut butter'', ''almond butter'',
           ''rice cakes'', ''jerky'', ''fruit snacks'', ''chocolate'', ''cookies'',
           ''brownies'', ''muffins'', ''banana bread'', ''protein bar'', ''granola bar'',
           ''trail mix'', ''edamame snack'', ''seaweed snacks'', ''veggie straws'']
        then ''Snacks''
        else if any_in item_lower
          [''water'', ''soda'', ''coffee'', ''tea'', ''latte'', ''cappuccino'', ''lemonade'',
           ''smoothie'', ''shake'', ''sports drink'', ''energy drink'', ''juice'',
           ''kombucha'', ''milkshake'', ''chai'', ''matcha'']
        then ''Drinks''
        else if any_in item_lower
          [''cake'', ''cupcakes'', ''donuts'', ''pie'', ''pudding'', ''sorbet'',
           ''cheesecake'', ''tiramisu'', ''mochi'', ''churros'', ''cinnamon rolls'',
           ''banana split'']
        then ''Desserts''
        else if any_in item_lower
          [''salad'', ''caesar'', ''greek'', ''garden'', ''cobb'', ''quinoa salad'',
           ''lentil salad'', ''pasta salad'', ''fruit salad'']
        then ''Salads''
        else if any_in item_lower
          [''pad thai'', ''pho'', ''ramen'', ''bibimbap'', ''tikka'', ''masala'', ''biryani'',
           ''curry'', ''gyro'', ''shawarma'', ''falafel'', ''poke bowl'', ''teriyaki'',
           ''katsu'', ''spring rolls'', ''dumplings'', ''gyoza'', ''poutine'', ''empanada'',
           ''tamales'', ''enchiladas'', ''arepas'']
        then ''International & Ethnic''
        else if str_in ''pizza'' item_lower then ''Pizza''
        else ''Other'')"

section \<open>The extraction pass (habitpet\_extractor.py, main)\<close>

text \<open>
  A JSON value that can stand under \<open>fdcId\<close>: an integer, a string or \<open>null\<close>.
  \<open>py_str\<close> is Python's \<open>str()\<close> on such a value.
\<close>

datatype pyval = PyInt int | PyStr string | PyNone

fun digits :: "nat \<Rightarrow> string" where
  "digits n =
     (if n < 10 then [char_of (48 + n)] else digits (n div 10) @ [char_of (48 + n mod 10)])"

declare digits.simps [simp del]

fun py_str :: "pyval \<Rightarrow> string" where
  "py_str (PyInt i) = (if i < 0 then CHR ''-'' # digits (nat (- i)) else digits (nat i))"
| "py_str (PyStr s) = s"
| "py_str PyNone = ''None''"

definition get_or :: "'a option \<Rightarrow> 'a \<Rightarrow> 'a" where
  \<comment> \<open>\<open>d.get(key, default)\<close>, the field being \<open>None\<close> when the key is absent\<close>
  "get_or field dflt = (case field of None \<Rightarrow> dflt | Some v \<Rightarrow> v)"

text \<open>
  One element of \<open>foodNutrients\<close>: \<open>number\<close> is \<open>nutrient['nutrient']['number']\<close> (absent
  when either key is), \<open>amount\<close> is \<open>nutrient.get('amount')\<close>.
\<close>

record nutrient_entry =
  number :: "string option"
  amount :: "rat option"

record sr_food =
  description :: "string option"
  sr_fdcId :: "pyval option"
  foodNutrients :: "nutrient_entry list option"

record nutrients =
  calories :: "rat option"
  protein :: "rat option"
  carbs :: "rat option"
  fat :: "rat option"

definition nutrient_step :: "nutrients \<Rightarrow> nutrient_entry \<Rightarrow> nutrients" where
  \<comment> \<open>the body of the loop of \<open>extract_nutrients\<close>, with the values of \<open>NUTRIENT_IDS\<close>\<close>
  "nutrient_step ns nutrient =
     (let nutrient_number = get_or (number nutrient) '''';
          amt = amount nutrient
      in if nutrient_number = ''208'' then ns\<lparr>calories := amt\<rparr>
         else if nutrient_number = ''203'' then ns\<lparr>protein := amt\<rparr>
         else if nutrient_number = ''205'' then ns\<lparr>carbs := amt\<rparr>
         else if nutrient_number = ''204'' then ns\<lparr>fat := amt\<rparr>
         else ns)"

definition extract_nutrients :: "sr_food \<Rightarrow> nutrients" where
  "extract_nutrients food_item =
     foldl nutrient_step \<lparr>calories = None, protein = None, carbs = None, fat = None\<rparr>
       (get_or (foodNutrients food_item) [])"

text \<open>
  \<open>whitelist_matches\<close> is a dict from whitelist item to (food item, score, description).
  It is an association list in insertion order, as a Python dict is: \<^const>\<open>AList.update\<close>
  replaces the value of a key in place and appends a new key at the end.
\<close>

type_synonym matches = "(string \<times> (sr_food \<times> rat \<times> string)) list"

definition match_step ::
  "extract_one \<Rightarrow> string list \<Rightarrow> matches \<Rightarrow> sr_food \<Rightarrow> py_error + matches" where
  \<comment> \<open>the body of the loop over \<open>sr_legacy_data\<close>\<close>
  "match_step extractOne whitelist whitelist_matches food_item =
     (let desc = get_or (description food_item) ''''
      in case match_whitelist_item extractOne desc whitelist of
           Inl e \<Rightarrow> Inl e
         | Inr None \<Rightarrow> Inr whitelist_matches
         | Inr (Some (matched_item, score)) \<Rightarrow>
             (let nutrients = extract_nutrients food_item
              in if calories nutrients = None then Inr whitelist_matches
                 else (case map_of whitelist_matches matched_item of
                         None \<Rightarrow>
                           Inr (AList.update matched_item (food_item, score, desc)
                                  whitelist_matches)
                       | Some (_, stored_score, _) \<Rightarrow>
                           if score > stored_score
                           then Inr (AList.update matched_item (food_item, score, desc)
                                       whitelist_matches)
                           else Inr whitelist_matches)))"

fun match_loop ::
  "extract_one \<Rightarrow> string list \<Rightarrow> matches \<Rightarrow> sr_food list \<Rightarrow> py_error + matches" where
  "match_loop extractOne whitelist whitelist_matches [] = Inr whitelist_matches"
| "match_loop extractOne whitelist whitelist_matches (food_item # sr_legacy_data) =
     (case match_step extractOne whitelist whitelist_matches food_item of
        Inl e \<Rightarrow> Inl e
      | Inr whitelist_matches' \<Rightarrow>
          match_loop extractOne whitelist whitelist_matches' sr_legacy_data)"

definition extraction_pass ::
  "extract_one \<Rightarrow> string list \<Rightarrow> sr_food list \<Rightarrow> py_error + matches" where
  "extraction_pass extractOne whitelist sr_legacy_data =
     match_loop extractOne whitelist [] sr_legacy_data"

section \<open>Categories by identifier and the merger (assign\_usda\_categories.py)\<close>

text \<open>
  A record of the catalog. The fields the script reads are written out; every other key
  of the JSON object lives in the extension of the record.
\<close>

record food =
  name :: "string option"
  searchKey :: "string option"
  fdcId :: "pyval option"
  category :: "string option"

definition assign_category ::
  "(string \<rightharpoonup> string) \<Rightarrow> (string \<rightharpoonup> string) \<Rightarrow> (string \<rightharpoonup> string)
     \<Rightarrow> 'a food_scheme \<Rightarrow> string" where
  \<comment> \<open>the three tables are globals of the script; a lookup follows a membership test\<close>
  "assign_category fndds_category_by_fdc_id categoryByFdcId categoryMap item =
     (let fdc_id = py_str (get_or (fdcId item) (PyStr ''''))
      in case fndds_category_by_fdc_id fdc_id of
           Some cat_desc \<Rightarrow> cat_desc
         | None \<Rightarrow>
             (case categoryByFdcId fdc_id of
                Some food_category_id \<Rightarrow>
                  (case categoryMap food_category_id of
                     Some cat_desc \<Rightarrow> cat_desc
                   | None \<Rightarrow> ''Uncategorized'')
              | None \<Rightarrow> ''Uncategorized''))"

definition unique_key :: "'a food_scheme \<Rightarrow> string" where
  \<comment> \<open>the key computed at the head of the deduplication loop\<close>
  "unique_key item =
     (let k = lower (strip (get_or (searchKey item) ''''))
      in if k = [] then lower (strip (get_or (name item) '''')) else k)"

fun dedup :: "(string \<rightharpoonup> bool) \<Rightarrow> 'a food_scheme list \<Rightarrow> 'a food_scheme list" where
  \<comment> \<open>the loop over \<open>all_foods\<close>; the result is \<open>master_foods\<close>, in the order of the appends\<close>
  "dedup seen_keys [] = []"
| "dedup seen_keys (item # all_foods) =
     (let k = unique_key item
      in if k \<noteq> [] \<and> seen_keys k = None
         then item # dedup (seen_keys(k \<mapsto> True)) all_foods
         else if k = [] then item # dedup seen_keys all_foods
         else dedup seen_keys all_foods)"

definition get_sort_key :: "'a food_scheme \<Rightarrow> string" where
  "get_sort_key item =
     (let key = lower (strip (get_or (searchKey item) ''''))
      in if key = [] then lower (strip (get_or (name item) '''')) else key)"

text \<open>
  \<open>list.sort(key=...)\<close> is a stable sort; it is modelled by \<^const>\<open>sort_key\<close>, on strings
  ordered as Python orders them: lexicographically by code point.
\<close>

definition master_foods :: "'a food_scheme list \<Rightarrow> 'a food_scheme list" where
  \<comment> \<open>section 5 of the script: deduplicate \<open>all_foods\<close>, then sort\<close>
  "master_foods all_foods = sort_key get_sort_key (dedup Map.empty all_foods)"

definition candidate ::
  "extract_one \<Rightarrow> string list \<Rightarrow> sr_food list \<Rightarrow> string \<Rightarrow> nat \<Rightarrow> rat \<Rightarrow> bool" where
  \<comment> \<open>record \<open>i\<close> of the pass matched whitelist item \<open>w\<close> with score \<open>s\<close> and has calories\<close>
  "candidate extractOne whitelist sr_legacy_data w i s =
     (i < length sr_legacy_data
      \<and> match_whitelist_item extractOne
            (get_or (description (sr_legacy_data ! i)) '''') whitelist = Inr (Some (w, s))
      \<and> calories (extract_nutrients (sr_legacy_data ! i)) \<noteq> None)"

definition new_candidate ::
  "extract_one \<Rightarrow> string list \<Rightarrow> string \<Rightarrow> sr_food \<Rightarrow> rat option" where
  \<comment> \<open>the score with which one record is a candidate for \<open>w\<close>, if it is one\<close>
  "new_candidate E wl w x =
     (case match_whitelist_item E (get_or (description x) '''') wl of
        Inr (Some (m, sc)) \<Rightarrow>
          if m = w \<and> calories (extract_nutrients x) \<noteq> None then Some sc else None
      | _ \<Rightarrow> None)"

section \<open>Strings: the library's view\<close>

lemma startswith_prefix: "startswith s p = prefix p s"
  by (induction s p rule: startswith.induct) auto

lemma str_in_sublist: "str_in x s = sublist x s"
  by (induction s) (auto simp: startswith_prefix sublist_Cons_right)

section \<open>The strategy ladder\<close>

lemma first_index:
  assumes "v \<in> set V" and "P v"
  shows "\<exists>i < length V. P (V ! i) \<and> (\<forall>j < i. \<not> P (V ! j))"
proof -
  define i where "i = (LEAST i. i < length V \<and> P (V ! i))"
  from assms obtain k where k: "k < length V \<and> P (V ! k)"
    by (auto simp: in_set_conv_nth)
  then have i: "i < length V \<and> P (V ! i)"
    unfolding i_def by (rule LeastI)
  moreover have "\<not> P (V ! j)" if "j < i" for j
  proof
    assume "P (V ! j)"
    moreover have "j < length V" using that i by simp
    ultimately have "i \<le> j" unfolding i_def by (intro Least_le) simp
    with that show False by simp
  qed
  ultimately show ?thesis by blast
qed

lemma exact_match_first:
  assumes "i < length V" and "normalize_text (V ! i) = dn"
    and "\<forall>j < i. normalize_text (V ! j) \<noteq> dn"
  shows "exact_match dn V = Some (V ! i, 100)"
  using assms
proof (induction V arbitrary: i)
  case Nil
  then show ?case by simp
next
  case (Cons v V)
  show ?case
  proof (cases i)
    case 0
    with Cons.prems show ?thesis by simp
  next
    case (Suc k)
    with Cons.prems have "normalize_text v \<noteq> dn" by auto
    moreover have "exact_match dn V = Some (V ! k, 100)"
      using Cons.prems Suc by (intro Cons.IH) auto
    ultimately show ?thesis using Suc by auto
  qed
qed

lemma exact_match_Some:
  "exact_match dn V = Some r \<Longrightarrow> snd r = 100 \<and> fst r \<in> set V \<and> normalize_text (fst r) = dn"
  by (induction V) (auto split: if_splits)

lemma starts_with_match_Some:
  "starts_with_match dn V = Some r \<Longrightarrow> snd r = 95 \<and> fst r \<in> set V"
  by (induction V) (auto simp: Let_def split: if_splits)

lemma starts_with_match_None:
  "starts_with_match dn V = None \<Longrightarrow> v \<in> set V \<Longrightarrow>
     \<not> startswith dn (normalize_text v) \<and> \<not> startswith (normalize_text v) dn"
  by (induction V) (auto simp: Let_def split: if_splits)

lemma match_exact:
  "exact_match (normalize_text D) V = Some r \<Longrightarrow> match_whitelist_item E D V = Inr (Some r)"
  by (simp add: match_whitelist_item_def)

lemma match_starts_with:
  "exact_match (normalize_text D) V = None \<Longrightarrow> starts_with_match (normalize_text D) V = Some r
     \<Longrightarrow> match_whitelist_item E D V = Inr (Some r)"
  by (simp add: match_whitelist_item_def)

text \<open>
  The division of strategy 3 is never reached with an empty description: the empty
  string is a prefix of every entry, so strategy 2 has returned before. The matcher
  raises on no input.
\<close>

lemma contains_match_no_error:
  "contains_match dn V = Inl e \<Longrightarrow> starts_with_match dn V \<noteq> None"
  by (induction V) (auto simp: Let_def split: if_splits)

lemma match_whitelist_item_never_raises: "match_whitelist_item E D V \<noteq> Inl e"
  using contains_match_no_error [of "normalize_text D" V e]
  by (auto simp: match_whitelist_item_def Let_def split: option.splits sum.splits)

lemma blank_description_empty_whitelist:
  "extractOne token_set_ratio (normalize_text D) [] 60 = None
   \<Longrightarrow> extractOne partial_ratio (normalize_text D) [] 60 = None
   \<Longrightarrow> extractOne token_sort_ratio (normalize_text D) [] 60 = None
   \<Longrightarrow> match_whitelist_item extractOne D [] = Inr None"
  by (simp add: match_whitelist_item_def fuzzy_match_def better_def)

lemma blank_description_nonempty_whitelist:
  assumes "normalize_text D = []" and "V \<noteq> []"
  shows "\<exists>item. item \<in> set V
     \<and> (match_whitelist_item E D V = Inr (Some (item, 100)) \<and> normalize_text item = []
        \<or> match_whitelist_item E D V = Inr (Some (item, 95)) \<and> item = hd V)"
proof (cases "exact_match [] V")
  case None
  from assms(2) obtain v V' where V: "V = v # V'" by (cases V) auto
  with None assms(1) have "match_whitelist_item E D V = Inr (Some (v, 95))"
    by (simp add: match_whitelist_item_def)
  with V show ?thesis by auto
next
  case (Some r)
  from exact_match_Some [OF Some] have "r = (fst r, 100)" "fst r \<in> set V"
    "normalize_text (fst r) = []"
    by (auto simp: prod_eq_iff)
  moreover from Some assms(1) have "match_whitelist_item E D V = Inr (Some r)"
    by (simp add: match_exact)
  ultimately show ?thesis by metis
qed

text \<open>
  C1. The claim: for every whitelist, a description that is empty or made of blanks and
  punctuation only gets no match (\<open>None\<close>), and the matcher never raises. The code never
  raises (\<open>match_whitelist_item_never_raises\<close>), but on a whitelist that is not empty it
  returns a match: the normalized description is the empty string, which every
  normalized entry starts with, so strategy 2 returns the first entry with score 95
  (\<open>blank_description_nonempty_whitelist\<close>). Here the code is run on the descriptions
  \<open>""\<close> and \<open>" ?! "\<close> with the whitelist \<open>["chicken", "rice"]\<close>.
\<close>

theorem blank_description_matches_first_entry:
  "normalize_text '''' = '''' \<and> normalize_text '' ?! '' = ''''
   \<and> match_whitelist_item extractOne '''' [''chicken'', ''rice'']
       = Inr (Some (''chicken'', 95))
   \<and> match_whitelist_item extractOne '' ?! '' [''chicken'', ''rice'']
       = Inr (Some (''chicken'', 95))"
  by code_simp

text \<open>
  C2, as amended. The claim gives the description \<open>"chicken breast grilled"\<close> and the
  entry \<open>"chicken"\<close> the score of strategy 3. The description starts with \<open>"chicken"\<close>, so
  strategy 1 or 2 returns first: on a whitelist containing \<open>"chicken"\<close> the score is 100
  (an entry that normalizes to the description) or 95, and on the whitelist
  \<open>["chicken"]\<close> the result is \<open>("chicken", 95)\<close>. The formula of strategy 3 is the score
  where the entry is inside the description and not at its start: the description
  \<open>"grilled chicken breast"\<close> and the whitelist \<open>["chicken"]\<close> give
  \<open>("chicken", 7/22 * 90)\<close>.
\<close>

theorem chicken_breast_grilled_score:
  "(''chicken'' \<in> set V \<longrightarrow>
      (\<exists>item. item \<in> set V
         \<and> (match_whitelist_item E ''chicken breast grilled'' V = Inr (Some (item, 100))
            \<or> match_whitelist_item E ''chicken breast grilled'' V = Inr (Some (item, 95)))))
   \<and> match_whitelist_item E ''chicken breast grilled'' [''chicken'']
       = Inr (Some (''chicken'', 95))
   \<and> match_whitelist_item E ''grilled chicken breast'' [''chicken'']
       = Inr (Some (''chicken'',
           min (of_nat (length ''chicken'') / of_nat (length ''grilled chicken breast'') * 90)
               90))
   \<and> min (of_nat (length ''chicken'') / of_nat (length ''grilled chicken breast'') * 90) 90
       = (7 / 22 * 90 :: rat)"
proof -
  let ?D = "''chicken breast grilled''"
  have nD: "normalize_text ?D = ?D" by code_simp
  have nc: "normalize_text ''chicken'' = ''chicken''" by code_simp
  have pre: "startswith ?D ''chicken''" by simp
  have general: "\<exists>item. item \<in> set V
         \<and> (match_whitelist_item E ?D V = Inr (Some (item, 100))
            \<or> match_whitelist_item E ?D V = Inr (Some (item, 95)))"
    if mem: "''chicken'' \<in> set V"
  proof (cases "exact_match (normalize_text ?D) V")
    case (Some r)
    from exact_match_Some [OF Some] have "r = (fst r, 100)" "fst r \<in> set V"
      by (auto simp: prod_eq_iff)
    with match_exact [OF Some, of E] show ?thesis by metis
  next
    case None
    show ?thesis
    proof (cases "starts_with_match (normalize_text ?D) V")
      case (Some r)
      from starts_with_match_Some [OF Some] have "r = (fst r, 95)" "fst r \<in> set V"
        by (auto simp: prod_eq_iff)
      with match_starts_with [OF None Some, of E] show ?thesis by metis
    next
      case none2: None
      from starts_with_match_None [OF none2 mem]
      have "\<not> startswith (normalize_text ?D) (normalize_text ''chicken'')" by blast
      then have "\<not> startswith ?D ''chicken''" by (simp add: nD nc)
      with pre show ?thesis by blast
    qed
  qed
  have one: "match_whitelist_item E ?D [''chicken''] = Inr (Some (''chicken'', 95))"
    by code_simp
  have sub: "match_whitelist_item E ''grilled chicken breast'' [''chicken'']
       = Inr (Some (''chicken'',
           min (of_nat (length ''chicken'') / of_nat (length ''grilled chicken breast'') * 90)
               90))"
    by code_simp
  have val: "min (of_nat (length ''chicken'') / of_nat (length ''grilled chicken breast'') * 90) 90
       = (7 / 22 * 90 :: rat)"
    by simp
  from general one sub val show ?thesis by blast
qed

theorem chicken_breast_grilled_score_witness:
  "''chicken'' \<in> set [''rice'', ''chicken'']
   \<and> match_whitelist_item (\<lambda>_ _ _ _. None) ''chicken breast grilled'' [''rice'', ''chicken'']
       = Inr (Some (''chicken'', 95))"
proof -
  have h: "''chicken'' \<in> set [''rice'', ''chicken'']" by simp
  have "match_whitelist_item (\<lambda>_ _ _ _. None) ''chicken breast grilled'' [''rice'', ''chicken'']
       = Inr (Some (''chicken'', 95))"
    by code_simp
  with h chicken_breast_grilled_score [of "[''rice'', ''chicken'']" "\<lambda>_ _ _ _. None"]
  show ?thesis by blast
qed

theorem chicken_breast_grilled_counterexample:
  "\<not> (\<exists>extractOne.
        match_whitelist_item extractOne ''chicken breast grilled'' [''chicken'']
          = Inr (Some (''chicken'',
              min (of_nat (length ''chicken'') / of_nat (length ''chicken breast grilled'') * 90)
                  90)))"
proof -
  have "match_whitelist_item extractOne ''chicken breast grilled'' [''chicken'']
          = Inr (Some (''chicken'', 95))" for extractOne
    by code_simp
  then show ?thesis by simp
qed

text \<open>
  C3. When the description normalizes to the same string as an entry of the whitelist,
  the matcher returns the first such entry with score 100, whatever \<open>extractOne\<close> is:
  the result does not depend on the fuzzy scorers, and no later strategy takes part.
\<close>

theorem exact_match_wins:
  assumes "v \<in> set V" and "normalize_text D = normalize_text v"
  shows "\<exists>i < length V. normalize_text (V ! i) = normalize_text D
           \<and> (\<forall>j < i. normalize_text (V ! j) \<noteq> normalize_text D)
           \<and> (\<forall>extractOne. match_whitelist_item extractOne D V = Inr (Some (V ! i, 100)))"
proof -
  from first_index [of v V "\<lambda>x. normalize_text x = normalize_text D"] assms
  obtain i where i: "i < length V" "normalize_text (V ! i) = normalize_text D"
    "\<forall>j < i. normalize_text (V ! j) \<noteq> normalize_text D"
    by auto
  then have "exact_match (normalize_text D) V = Some (V ! i, 100)"
    by (rule exact_match_first)
  then have "\<forall>extractOne. match_whitelist_item extractOne D V = Inr (Some (V ! i, 100))"
    by (simp add: match_exact)
  with i show ?thesis by blast
qed

theorem exact_match_wins_witness:
  "''chicken'' \<in> set [''rice'', ''Chicken!'', ''chicken'']
   \<and> normalize_text ''CHICKEN'' = normalize_text ''chicken''
   \<and> (\<forall>extractOne.
         match_whitelist_item extractOne ''CHICKEN'' [''rice'', ''Chicken!'', ''chicken'']
           = Inr (Some (''Chicken!'', 100)))"
proof -
  let ?V = "[''rice'', ''Chicken!'', ''chicken'']"
  have h1: "''chicken'' \<in> set ?V" by simp
  have h2: "normalize_text ''CHICKEN'' = normalize_text ''chicken''" by code_simp
  have n0: "normalize_text (?V ! 0) \<noteq> normalize_text ''CHICKEN''" by code_simp
  have n1: "normalize_text (?V ! 1) = normalize_text ''CHICKEN''" by code_simp
  from exact_match_wins [OF h1 h2] obtain i where i: "i < length ?V"
    "normalize_text (?V ! i) = normalize_text ''CHICKEN''"
    "\<forall>j < i. normalize_text (?V ! j) \<noteq> normalize_text ''CHICKEN''"
    "\<forall>extractOne. match_whitelist_item extractOne ''CHICKEN'' ?V = Inr (Some (?V ! i, 100))"
    by blast
  have "i = 1"
  proof -
    from i(2) n0 have "i \<noteq> 0" by metis
    moreover from i(3) n1 have "\<not> 1 < i" by blast
    ultimately show ?thesis by simp
  qed
  with i(4) have "\<forall>extractOne. match_whitelist_item extractOne ''CHICKEN'' ?V
      = Inr (Some (''Chicken!'', 100))"
    by simp
  with h1 h2 show ?thesis by blast
qed

section \<open>The classifier\<close>

text \<open>
  C4, as amended. The rules are tried in their fixed order and the first that fires
  wins, but the text they read is the matched whitelist item alone, lowercased; the
  description takes no part. When the lowercased whitelist item contains both
  \<open>"beans"\<close> and \<open>"chicken"\<close>, the category is \<open>"Protein - Poultry"\<close>. When it contains
  \<open>"beans"\<close> and no keyword of the three earlier rules (poultry, meat, seafood), the
  category is \<open>"Protein - Plant-Based"\<close>, not \<open>"Vegetables"\<close>.
\<close>

theorem classifier_reads_matched_item:
  "(str_in ''beans'' (lower w) \<and> str_in ''chicken'' (lower w)
      \<longrightarrow> map_category d w = ''Protein - Poultry'')
   \<and> (str_in ''beans'' (lower w)
       \<and> \<not> any_in (lower w) [''chicken'', ''turkey'', ''poultry'']
       \<and> \<not> any_in (lower w)
             [''beef'', ''pork'', ''meat'', ''steak'', ''brisket'', ''ribeye'', ''sirloin'',
              ''sausage'', ''bacon'', ''ham'', ''pepperoni'', ''salami'', ''hot dog'',
              ''bratwurst'', ''jerky'', ''gyro'', ''shawarma'', ''meatloaf'', ''lasagna'']
       \<and> \<not> any_in (lower w)
             [''salmon'', ''tuna'', ''shrimp'', ''fish'', ''cod'', ''tilapia'', ''sardines'',
              ''mackerel'', ''sushi'', ''poke'', ''clam'', ''crab'', ''mussels'', ''calamari'',
              ''tempura'']
      \<longrightarrow> map_category d w = ''Protein - Plant-Based'')"
proof -
  have a: "map_category d w = ''Protein - Poultry''" if "str_in ''chicken'' (lower w)"
    using that by (simp add: map_category_def any_in_def)
  have b: "map_category d w = ''Protein - Plant-Based''"
    if "str_in ''beans'' (lower w)"
      and "\<not> any_in (lower w) [''chicken'', ''turkey'', ''poultry'']"
      and "\<not> any_in (lower w)
             [''beef'', ''pork'', ''meat'', ''steak'', ''brisket'', ''ribeye'', ''sirloin'',
              ''sausage'', ''bacon'', ''ham'', ''pepperoni'', ''salami'', ''hot dog'',
              ''bratwurst'', ''jerky'', ''gyro'', ''shawarma'', ''meatloaf'', ''lasagna'']"
      and "\<not> any_in (lower w)
             [''salmon'', ''tuna'', ''shrimp'', ''fish'', ''cod'', ''tilapia'', ''sardines'',
              ''mackerel'', ''sushi'', ''poke'', ''clam'', ''crab'', ''mussels'', ''calamari'',
              ''tempura'']"
  proof -
    have "any_in (lower w)
          [''tofu'', ''tempeh'', ''lentils'', ''chickpeas'', ''hummus'', ''falafel'',
           ''edamame'', ''beans'', ''impossible'', ''beyond'', ''vegan'', ''veggie burger'',
           ''seitan'', ''soy'']"
      using that(1) by (simp add: any_in_def)
    with that(2,3,4) show ?thesis
      unfolding map_category_def Let_def by (simp only: if_True if_False)
  qed
  from a b show ?thesis by blast
qed

theorem classifier_reads_matched_item_witness:
  "str_in ''beans'' (lower ''Chicken and Beans'') \<and> str_in ''chicken'' (lower ''Chicken and Beans'')
   \<and> map_category ''rice'' ''Chicken and Beans'' = ''Protein - Poultry''
   \<and> str_in ''beans'' (lower ''Green Beans'')
   \<and> map_category ''chicken'' ''Green Beans'' = ''Protein - Plant-Based''"
proof -
  have h1: "str_in ''beans'' (lower ''Chicken and Beans'') \<and> str_in ''chicken'' (lower ''Chicken and Beans'')"
    by code_simp
  have h2: "str_in ''beans'' (lower ''Green Beans'')" by code_simp
  have h3: "\<not> any_in (lower ''Green Beans'') [''chicken'', ''turkey'', ''poultry'']" by code_simp
  have h4: "\<not> any_in (lower ''Green Beans'')
             [''beef'', ''pork'', ''meat'', ''steak'', ''brisket'', ''ribeye'', ''sirloin'',
              ''sausage'', ''bacon'', ''ham'', ''pepperoni'', ''salami'', ''hot dog'',
              ''bratwurst'', ''jerky'', ''gyro'', ''shawarma'', ''meatloaf'', ''lasagna'']" by code_simp
  have h5: "\<not> any_in (lower ''Green Beans'')
             [''salmon'', ''tuna'', ''shrimp'', ''fish'', ''cod'', ''tilapia'', ''sardines'',
              ''mackerel'', ''sushi'', ''poke'', ''clam'', ''crab'', ''mussels'', ''calamari'',
              ''tempura'']" by code_simp
  from classifier_reads_matched_item [of "''Chicken and Beans''" "''rice''"] h1
  have "map_category ''rice'' ''Chicken and Beans'' = ''Protein - Poultry''" by blast
  moreover from classifier_reads_matched_item [of "''Green Beans''" "''chicken''"] h2 h3 h4 h5
  have "map_category ''chicken'' ''Green Beans'' = ''Protein - Plant-Based''" by blast
  ultimately show ?thesis using h1 h2 by blast
qed

text \<open>
  The claim as stated speaks of the description as well. A description that contains
  both keywords, with the whitelist item \<open>"rice"\<close>, is classified by the item.
\<close>

theorem description_keywords_counterexample:
  "str_in ''beans'' (lower ''Chicken and Beans'') \<and> str_in ''chicken'' (lower ''Chicken and Beans'')
   \<and> map_category ''Chicken and Beans'' ''rice'' = ''Grains & Starches''"
  by code_simp

text \<open>
  C10. The category depends on the matched whitelist item only: two descriptions with
  the same whitelist item get the same category.
\<close>

theorem classifier_ignores_description: "map_category d1 w = map_category d2 w"
  by (simp add: map_category_def)

section \<open>Categories by identifier\<close>

text \<open>
  C6. With \<open>fdc_id = str(item.get('fdcId', ''))\<close>: when the direct table (FNDDS) has
  \<open>fdc_id\<close>, \<open>assign_category\<close> returns its entry; otherwise, when the identifier maps
  to a group id and the group id to a description (SR Legacy), it returns that
  description; otherwise it returns \<open>"Uncategorized"\<close>. The function is total: a table
  is read only after its membership test.
\<close>

theorem assign_category_lookup:
  "(let fdc_id = py_str (get_or (fdcId item) (PyStr ''''))
    in (\<forall>c. direct fdc_id = Some c \<longrightarrow> assign_category direct by_fdc cmap item = c)
       \<and> (\<forall>g c. direct fdc_id = None \<and> by_fdc fdc_id = Some g \<and> cmap g = Some c
             \<longrightarrow> assign_category direct by_fdc cmap item = c)
       \<and> (direct fdc_id = None
            \<and> (by_fdc fdc_id = None \<or> (\<exists>g. by_fdc fdc_id = Some g \<and> cmap g = None))
             \<longrightarrow> assign_category direct by_fdc cmap item = ''Uncategorized''))"
  by (auto simp: assign_category_def Let_def)

theorem assign_category_lookup_witness:
  "(let direct = [''2341'' \<mapsto> ''Pizza''];
        by_fdc = [''2341'' \<mapsto> ''9'', ''170'' \<mapsto> ''5'', ''171'' \<mapsto> ''77''];
        cmap = [''5'' \<mapsto> ''Poultry Products''];
        item = (\<lambda>i. \<lparr>name = None, searchKey = None, fdcId = i, category = None\<rparr>)
    in assign_category direct by_fdc cmap (item (Some (PyInt 2341))) = ''Pizza''
     \<and> assign_category direct by_fdc cmap (item (Some (PyInt 170))) = ''Poultry Products''
     \<and> assign_category direct by_fdc cmap (item (Some (PyStr ''171''))) = ''Uncategorized''
     \<and> assign_category direct by_fdc cmap (item None) = ''Uncategorized'')"
proof -
  define direct :: "string \<rightharpoonup> string" where "direct = [''2341'' \<mapsto> ''Pizza'']"
  define by_fdc :: "string \<rightharpoonup> string"
    where "by_fdc = [''2341'' \<mapsto> ''9'', ''170'' \<mapsto> ''5'', ''171'' \<mapsto> ''77'']"
  define cmap :: "string \<rightharpoonup> string" where "cmap = [''5'' \<mapsto> ''Poultry Products'']"
  define item
    where "item = (\<lambda>i. \<lparr>name = None, searchKey = None, fdcId = i, category = None\<rparr>)"
  have k1: "py_str (get_or (fdcId (item (Some (PyInt 2341)))) (PyStr '''')) = ''2341''"
    unfolding item_def by code_simp
  have k2: "py_str (get_or (fdcId (item (Some (PyInt 170)))) (PyStr '''')) = ''170''"
    unfolding item_def by code_simp
  have k3: "py_str (get_or (fdcId (item (Some (PyStr ''171'')))) (PyStr '''')) = ''171''"
    unfolding item_def by code_simp
  have k4: "py_str (get_or (fdcId (item None)) (PyStr '''')) = ''''"
    unfolding item_def by code_simp
  have d1: "direct ''2341'' = Some ''Pizza''" by (simp add: direct_def)
  have d2: "direct ''170'' = None \<and> by_fdc ''170'' = Some ''5''
      \<and> cmap ''5'' = Some ''Poultry Products''"
    by (simp add: direct_def by_fdc_def cmap_def)
  have d3: "direct ''171'' = None \<and> by_fdc ''171'' = Some ''77'' \<and> cmap ''77'' = None"
    by (simp add: direct_def by_fdc_def cmap_def)
  have d4: "direct '''' = None \<and> by_fdc '''' = None"
    by (simp add: direct_def by_fdc_def)
  have "assign_category direct by_fdc cmap (item (Some (PyInt 2341))) = ''Pizza''"
    using assign_category_lookup [of "item (Some (PyInt 2341))" direct by_fdc cmap,
        unfolded Let_def k1] d1
    by blast
  moreover
  have "assign_category direct by_fdc cmap (item (Some (PyInt 170))) = ''Poultry Products''"
    using assign_category_lookup [of "item (Some (PyInt 170))" direct by_fdc cmap,
        unfolded Let_def k2] d2
    by blast
  moreover
  have "assign_category direct by_fdc cmap (item (Some (PyStr ''171''))) = ''Uncategorized''"
    using assign_category_lookup [of "item (Some (PyStr ''171''))" direct by_fdc cmap,
        unfolded Let_def k3] d3
    by blast
  moreover have "assign_category direct by_fdc cmap (item None) = ''Uncategorized''"
    using assign_category_lookup [of "item None" direct by_fdc cmap, unfolded Let_def k4] d4
    by blast
  ultimately show ?thesis
    unfolding direct_def by_fdc_def cmap_def item_def Let_def by blast
qed

section \<open>The merger\<close>

lemma dedup_Cons_new:
  "unique_key x \<noteq> [] \<Longrightarrow> seen (unique_key x) = None
   \<Longrightarrow> dedup seen (x # xs) = x # dedup (seen(unique_key x \<mapsto> True)) xs"
  by (simp add: Let_def)

lemma dedup_Cons_empty:
  "unique_key x = [] \<Longrightarrow> dedup seen (x # xs) = x # dedup seen xs"
  by (simp add: Let_def)

lemma dedup_Cons_seen:
  "unique_key x \<noteq> [] \<Longrightarrow> seen (unique_key x) \<noteq> None
   \<Longrightarrow> dedup seen (x # xs) = dedup seen xs"
  by (auto simp: Let_def)

lemma dedup_unseen:
  "y \<in> set (dedup seen xs) \<Longrightarrow> unique_key y \<noteq> [] \<Longrightarrow> seen (unique_key y) = None"
proof (induction xs arbitrary: seen)
  case Nil
  then show ?case by simp
next
  case (Cons x xs)
  consider (new) "unique_key x \<noteq> []" "seen (unique_key x) = None"
    | (empty) "unique_key x = []"
    | (old) "unique_key x \<noteq> []" "seen (unique_key x) \<noteq> None"
    by blast
  then show ?case
  proof cases
    case new
    from Cons.prems(1) have "y = x \<or> y \<in> set (dedup (seen(unique_key x \<mapsto> True)) xs)"
      by (simp add: dedup_Cons_new [of x seen xs] new)
    then show ?thesis
    proof
      assume "y = x"
      with new show ?thesis by simp
    next
      assume "y \<in> set (dedup (seen(unique_key x \<mapsto> True)) xs)"
      from Cons.IH [OF this Cons.prems(2)] show ?thesis
        by (simp split: if_splits)
    qed
  next
    case empty
    from Cons.prems(1) have "y = x \<or> y \<in> set (dedup seen xs)"
      by (simp add: dedup_Cons_empty [of x seen xs] empty)
    with Cons.prems(2) empty Cons.IH show ?thesis by blast
  next
    case old
    from Cons.prems(1) have "y \<in> set (dedup seen xs)"
      by (simp add: dedup_Cons_seen [of x seen xs] old)
    with Cons.prems(2) Cons.IH show ?thesis by blast
  qed
qed

lemma dedup_distinct_keys:
  "distinct (filter (\<lambda>k. k \<noteq> []) (map unique_key (dedup seen xs)))"
proof (induction xs arbitrary: seen)
  case Nil
  show ?case by simp
next
  case (Cons x xs)
  consider (new) "unique_key x \<noteq> []" "seen (unique_key x) = None"
    | (empty) "unique_key x = []"
    | (old) "unique_key x \<noteq> []" "seen (unique_key x) \<noteq> None"
    by blast
  then show ?case
  proof cases
    case new
    let ?rest = "dedup (seen(unique_key x \<mapsto> True)) xs"
    have "unique_key x \<notin> set (map unique_key ?rest)"
    proof
      assume "unique_key x \<in> set (map unique_key ?rest)"
      then obtain y where y: "y \<in> set ?rest" "unique_key y = unique_key x" by auto
      with new(1) have "unique_key y \<noteq> []" by simp
      from dedup_unseen [OF y(1) this] y(2) show False by simp
    qed
    moreover have "distinct (filter (\<lambda>k. k \<noteq> []) (map unique_key ?rest))"
      by (rule Cons.IH)
    moreover have "dedup seen (x # xs) = x # ?rest"
      using new by (rule dedup_Cons_new)
    ultimately show ?thesis using new(1) by simp
  next
    case empty
    with Cons.IH [of seen] show ?thesis by (simp add: dedup_Cons_empty [of x seen xs] empty)
  next
    case old
    with Cons.IH [of seen] show ?thesis by (simp add: dedup_Cons_seen [of x seen xs] old)
  qed
qed

lemma distinct_keys_sort_key:
  "distinct (filter P (map f (sort_key g ys))) = distinct (filter P (map f ys))"
proof -
  have "mset (filter P (map f (sort_key g ys))) = mset (filter P (map f ys))"
    by simp
  then show ?thesis by (rule mset_eq_imp_distinct_iff)
qed

lemma get_sort_key_unique_key: "get_sort_key item = unique_key item"
  by (simp add: get_sort_key_def unique_key_def)

lemma dedup_id:
  "distinct (filter (\<lambda>k. k \<noteq> []) (map unique_key ys))
   \<Longrightarrow> \<forall>y \<in> set ys. unique_key y \<noteq> [] \<longrightarrow> seen (unique_key y) = None
   \<Longrightarrow> dedup seen ys = ys"
proof (induction ys arbitrary: seen)
  case Nil
  show ?case by simp
next
  case (Cons y ys)
  show ?case
  proof (cases "unique_key y = []")
    case True
    with Cons.prems have "dedup seen ys = ys" by (intro Cons.IH) auto
    with True show ?thesis by simp
  next
    case False
    with Cons.prems have seen: "seen (unique_key y) = None" by simp
    from False Cons.prems have fresh: "unique_key y \<notin> unique_key ` set ys"
      and dist: "distinct (filter (\<lambda>k. k \<noteq> []) (map unique_key ys))"
      by auto
    have "\<forall>z \<in> set ys. unique_key z \<noteq> [] \<longrightarrow> (seen(unique_key y \<mapsto> True)) (unique_key z) = None"
    proof (intro ballI impI)
      fix z assume z: "z \<in> set ys" "unique_key z \<noteq> []"
      from z(1) have "unique_key z \<in> unique_key ` set ys" by (rule imageI)
      with fresh have "unique_key z \<noteq> unique_key y" by metis
      moreover from z Cons.prems(2) have "seen (unique_key z) = None" by simp
      ultimately show "(seen(unique_key y \<mapsto> True)) (unique_key z) = None" by simp
    qed
    with dist have "dedup (seen(unique_key y \<mapsto> True)) ys = ys"
      by (rule Cons.IH)
    with False seen show ?thesis by simp
  qed
qed

lemma upt_Cons_map_Suc: "[0..<Suc n] = 0 # map Suc [0..<n]"
  by (simp add: upt_conv_Cons map_Suc_upt del: upt_Suc)

lemma dedup_index:
  "dedup seen xs =
     map ((!) xs)
       (filter (\<lambda>i. unique_key (xs ! i) = []
                    \<or> (seen (unique_key (xs ! i)) = None
                        \<and> unique_key (xs ! i) \<notin> set (map unique_key (take i xs))))
          [0..<length xs])"
proof (induction xs arbitrary: seen)
  case Nil
  show ?case by simp
next
  case (Cons x xs)
  have len: "length (x # xs) = Suc (length xs)" by simp
  have nth: "map ((!) (x # xs)) (map Suc is) = map ((!) xs) is" for "is"
    by simp
  show ?case
  proof (cases "unique_key x = []")
    case True
    have "filter (\<lambda>i. unique_key ((x # xs) ! i) = []
                    \<or> (seen (unique_key ((x # xs) ! i)) = None
                        \<and> unique_key ((x # xs) ! i) \<notin> set (map unique_key (take i (x # xs)))))
            (map Suc [0..<length xs])
        = map Suc (filter (\<lambda>i. unique_key (xs ! i) = []
                    \<or> (seen (unique_key (xs ! i)) = None
                        \<and> unique_key (xs ! i) \<notin> set (map unique_key (take i xs))))
            [0..<length xs])"
      unfolding filter_map o_def using True by (auto intro!: arg_cong [where f = "map Suc"] filter_cong)
    with True show ?thesis
      unfolding len upt_Cons_map_Suc by (simp add: Cons.IH [of seen] del: upt_Suc)
  next
    case False
    show ?thesis
    proof (cases "seen (unique_key x)")
      case None
      have "filter (\<lambda>i. unique_key ((x # xs) ! i) = []
                    \<or> (seen (unique_key ((x # xs) ! i)) = None
                        \<and> unique_key ((x # xs) ! i) \<notin> set (map unique_key (take i (x # xs)))))
            (map Suc [0..<length xs])
        = map Suc (filter (\<lambda>i. unique_key (xs ! i) = []
                    \<or> ((seen(unique_key x \<mapsto> True)) (unique_key (xs ! i)) = None
                        \<and> unique_key (xs ! i) \<notin> set (map unique_key (take i xs))))
            [0..<length xs])"
        unfolding filter_map o_def by (auto intro!: arg_cong [where f = "map Suc"] filter_cong)
      with False None show ?thesis
        unfolding len upt_Cons_map_Suc
        by (simp add: Cons.IH [of "seen(unique_key x \<mapsto> True)"] del: upt_Suc)
    next
      case (Some b)
      have "filter (\<lambda>i. unique_key ((x # xs) ! i) = []
                    \<or> (seen (unique_key ((x # xs) ! i)) = None
                        \<and> unique_key ((x # xs) ! i) \<notin> set (map unique_key (take i (x # xs)))))
            (map Suc [0..<length xs])
        = map Suc (filter (\<lambda>i. unique_key (xs ! i) = []
                    \<or> (seen (unique_key (xs ! i)) = None
                        \<and> unique_key (xs ! i) \<notin> set (map unique_key (take i xs))))
            [0..<length xs])"
        unfolding filter_map o_def using Some
        by (auto intro!: arg_cong [where f = "map Suc"] filter_cong)
      with False Some show ?thesis
        unfolding len upt_Cons_map_Suc by (simp add: Cons.IH [of seen] del: upt_Suc)
    qed
  qed
qed

text \<open>
  C5. The derived key of a record is its \<open>searchKey\<close>, stripped and lowercased, when
  that is not empty, and else its \<open>name\<close>, stripped and lowercased. The deduplication
  keeps record \<open>i\<close> of \<open>all_foods\<close> exactly when its key is empty or no earlier record
  has the same key, and keeps the records in their order: the first record with a
  given non-empty key stays, every later one with that key is dropped, and a record
  with the empty key always stays.
\<close>

theorem dedup_first_occurrence:
  "dedup Map.empty all_foods =
     map ((!) all_foods)
       (filter (\<lambda>i. unique_key (all_foods ! i) = []
                    \<or> unique_key (all_foods ! i) \<notin> set (map unique_key (take i all_foods)))
          [0..<length all_foods])
   \<and> unique_key item =
       (if lower (strip (get_or (searchKey item) '''')) \<noteq> []
        then lower (strip (get_or (searchKey item) ''''))
        else lower (strip (get_or (name item) '''')))"
proof -
  have "dedup Map.empty all_foods =
     map ((!) all_foods)
       (filter (\<lambda>i. unique_key (all_foods ! i) = []
                    \<or> unique_key (all_foods ! i) \<notin> set (map unique_key (take i all_foods)))
          [0..<length all_foods])"
    unfolding dedup_index [of Map.empty all_foods] by simp
  moreover have "unique_key item =
       (if lower (strip (get_or (searchKey item) '''')) \<noteq> []
        then lower (strip (get_or (searchKey item) ''''))
        else lower (strip (get_or (name item) '''')))"
    by (simp add: unique_key_def Let_def)
  ultimately show ?thesis by (rule conjI)
qed

theorem dedup_first_occurrence_witness:
  "dedup Map.empty
     [\<lparr>name = Some ''Banana'', searchKey = Some ''banana'', fdcId = None, category = None\<rparr>,
      \<lparr>name = None, searchKey = None, fdcId = Some (PyInt 1), category = None\<rparr>,
      \<lparr>name = Some ''BANANA'', searchKey = Some '' Banana '', fdcId = None, category = None\<rparr>,
      \<lparr>name = Some ''Apple'', searchKey = None, fdcId = None, category = None\<rparr>,
      \<lparr>name = None, searchKey = Some ''  '', fdcId = Some (PyInt 2), category = None\<rparr>]
   = [\<lparr>name = Some ''Banana'', searchKey = Some ''banana'', fdcId = None, category = None\<rparr>,
      \<lparr>name = None, searchKey = None, fdcId = Some (PyInt 1), category = None\<rparr>,
      \<lparr>name = Some ''Apple'', searchKey = None, fdcId = None, category = None\<rparr>,
      \<lparr>name = None, searchKey = Some ''  '', fdcId = Some (PyInt 2), category = None\<rparr>]"
proof -
  let ?L = "[\<lparr>name = Some ''Banana'', searchKey = Some ''banana'', fdcId = None, category = None\<rparr>,
      \<lparr>name = None, searchKey = None, fdcId = Some (PyInt 1), category = None\<rparr>,
      \<lparr>name = Some ''BANANA'', searchKey = Some '' Banana '', fdcId = None, category = None\<rparr>,
      \<lparr>name = Some ''Apple'', searchKey = None, fdcId = None, category = None\<rparr>,
      \<lparr>name = None, searchKey = Some ''  '', fdcId = Some (PyInt 2), category = None\<rparr>]"
  have "map ((!) ?L)
       (filter (\<lambda>i. unique_key (?L ! i) = []
                    \<or> unique_key (?L ! i) \<notin> set (map unique_key (take i ?L)))
          [0..<length ?L])
     = [\<lparr>name = Some ''Banana'', searchKey = Some ''banana'', fdcId = None, category = None\<rparr>,
      \<lparr>name = None, searchKey = None, fdcId = Some (PyInt 1), category = None\<rparr>,
      \<lparr>name = Some ''Apple'', searchKey = None, fdcId = None, category = None\<rparr>,
      \<lparr>name = None, searchKey = Some ''  '', fdcId = Some (PyInt 2), category = None\<rparr>]"
    by code_simp
  with conjunct1 [OF dedup_first_occurrence [of ?L]] show ?thesis
    by (rule trans)
qed

text \<open>
  C8. The merger, deduplication followed by the sort, is idempotent: run on its own
  output it returns that output, the same records in the same order.
\<close>

theorem master_foods_idempotent: "master_foods (master_foods all_foods) = master_foods all_foods"
proof -
  let ?ys = "dedup Map.empty all_foods"
  let ?zs = "sort_key get_sort_key ?ys"
  have "distinct (filter (\<lambda>k. k \<noteq> []) (map unique_key ?ys))"
    by (rule dedup_distinct_keys)
  then have "distinct (filter (\<lambda>k. k \<noteq> []) (map unique_key ?zs))"
    by (simp only: distinct_keys_sort_key)
  then have "dedup Map.empty ?zs = ?zs"
    by (rule dedup_id) simp
  moreover have "sort_key get_sort_key ?zs = ?zs"
    by (rule sort_key_id_if_sorted) (rule sorted_sort_key)
  ultimately show ?thesis by (simp only: master_foods_def)
qed

theorem master_foods_idempotent_witness:
  "master_foods (master_foods
     [\<lparr>name = Some ''Banana'', searchKey = Some ''banana'', fdcId = None, category = None\<rparr>,
      \<lparr>name = None, searchKey = None, fdcId = Some (PyInt 1), category = None\<rparr>,
      \<lparr>name = Some ''BANANA'', searchKey = Some '' Banana '', fdcId = None, category = None\<rparr>,
      \<lparr>name = Some ''Apple'', searchKey = None, fdcId = None, category = None\<rparr>,
      \<lparr>name = None, searchKey = Some ''  '', fdcId = Some (PyInt 2), category = None\<rparr>])
   = [\<lparr>name = None, searchKey = None, fdcId = Some (PyInt 1), category = None\<rparr>,
      \<lparr>name = None, searchKey = Some ''  '', fdcId = Some (PyInt 2), category = None\<rparr>,
      \<lparr>name = Some ''Apple'', searchKey = None, fdcId = None, category = None\<rparr>,
      \<lparr>name = Some ''Banana'', searchKey = Some ''banana'', fdcId = None, category = None\<rparr>]"
proof -
  let ?L = "[\<lparr>name = Some ''Banana'', searchKey = Some ''banana'', fdcId = None, category = None\<rparr>,
      \<lparr>name = None, searchKey = None, fdcId = Some (PyInt 1), category = None\<rparr>,
      \<lparr>name = Some ''BANANA'', searchKey = Some '' Banana '', fdcId = None, category = None\<rparr>,
      \<lparr>name = Some ''Apple'', searchKey = None, fdcId = None, category = None\<rparr>,
      \<lparr>name = None, searchKey = Some ''  '', fdcId = Some (PyInt 2), category = None\<rparr>]"
  have "master_foods ?L
     = [\<lparr>name = None, searchKey = None, fdcId = Some (PyInt 1), category = None\<rparr>,
      \<lparr>name = None, searchKey = Some ''  '', fdcId = Some (PyInt 2), category = None\<rparr>,
      \<lparr>name = Some ''Apple'', searchKey = None, fdcId = None, category = None\<rparr>,
      \<lparr>name = Some ''Banana'', searchKey = Some ''banana'', fdcId = None, category = None\<rparr>]"
    by code_simp
  with master_foods_idempotent [of ?L] show ?thesis
    by (rule trans)
qed

text \<open>
  C9. The sort key is the derived key of the deduplication. The master list is sorted
  in ascending order of that key (strings compared lexicographically by code point), it
  has the records of the deduplicated list, and for every key the records with that
  key stand in the order they had before the sort.
\<close>

theorem master_foods_sorted_stable:
  "map get_sort_key all_foods = map unique_key all_foods
   \<and> sorted (map unique_key (master_foods all_foods))
   \<and> mset (master_foods all_foods) = mset (dedup Map.empty all_foods)
   \<and> (\<forall>k. filter (\<lambda>item. unique_key item = k) (master_foods all_foods)
           = filter (\<lambda>item. unique_key item = k) (dedup Map.empty all_foods))"
proof -
  have eq: "(get_sort_key :: 'a food_scheme \<Rightarrow> string) = unique_key"
    by (rule ext) (rule get_sort_key_unique_key)
  have "sorted (map unique_key (sort_key unique_key (dedup Map.empty all_foods)))"
    by (rule sorted_sort_key)
  moreover have "mset (sort_key unique_key (dedup Map.empty all_foods))
      = mset (dedup Map.empty all_foods)"
    by (rule mset_sort)
  moreover have "\<forall>k. filter (\<lambda>item. unique_key item = k)
        (sort_key unique_key (dedup Map.empty all_foods))
      = filter (\<lambda>item. unique_key item = k) (dedup Map.empty all_foods)"
    by (simp only: sort_key_stable) simp
  ultimately show ?thesis
    unfolding master_foods_def eq by simp
qed

theorem master_foods_sorted_stable_witness:
  "sorted (map unique_key (master_foods
     [\<lparr>name = Some ''Banana'', searchKey = Some ''banana'', fdcId = None, category = None\<rparr>,
      \<lparr>name = None, searchKey = None, fdcId = Some (PyInt 1), category = None\<rparr>,
      \<lparr>name = Some ''Apple'', searchKey = None, fdcId = None, category = None\<rparr>,
      \<lparr>name = None, searchKey = Some ''  '', fdcId = Some (PyInt 2), category = None\<rparr>]))
   \<and> map unique_key (master_foods
     [\<lparr>name = Some ''Banana'', searchKey = Some ''banana'', fdcId = None, category = None\<rparr>,
      \<lparr>name = None, searchKey = None, fdcId = Some (PyInt 1), category = None\<rparr>,
      \<lparr>name = Some ''Apple'', searchKey = None, fdcId = None, category = None\<rparr>,
      \<lparr>name = None, searchKey = Some ''  '', fdcId = Some (PyInt 2), category = None\<rparr>])
     = ['''', '''', ''apple'', ''banana'']
   \<and> map fdcId (filter (\<lambda>item. unique_key item = '''') (master_foods
     [\<lparr>name = Some ''Banana'', searchKey = Some ''banana'', fdcId = None, category = None\<rparr>,
      \<lparr>name = None, searchKey = None, fdcId = Some (PyInt 1), category = None\<rparr>,
      \<lparr>name = Some ''Apple'', searchKey = None, fdcId = None, category = None\<rparr>,
      \<lparr>name = None, searchKey = Some ''  '', fdcId = Some (PyInt 2), category = None\<rparr>]))
     = [Some (PyInt 1), Some (PyInt 2)]"
proof -
  let ?L = "[\<lparr>name = Some ''Banana'', searchKey = Some ''banana'', fdcId = None, category = None\<rparr>,
      \<lparr>name = None, searchKey = None, fdcId = Some (PyInt 1), category = None\<rparr>,
      \<lparr>name = Some ''Apple'', searchKey = None, fdcId = None, category = None\<rparr>,
      \<lparr>name = None, searchKey = Some ''  '', fdcId = Some (PyInt 2), category = None\<rparr>]"
  from master_foods_sorted_stable [of ?L]
  have "sorted (map unique_key (master_foods ?L))" by blast
  moreover have "map unique_key (master_foods ?L) = ['''', '''', ''apple'', ''banana'']"
    by code_simp
  moreover have "map fdcId (filter (\<lambda>item. unique_key item = '''') (master_foods ?L))
      = [Some (PyInt 1), Some (PyInt 2)]"
    by code_simp
  ultimately show ?thesis by blast
qed

section \<open>The extraction pass\<close>

lemma new_candidate_Some:
  "new_candidate E wl w x = Some s \<longleftrightarrow>
     match_whitelist_item E (get_or (description x) '''') wl = Inr (Some (w, s))
     \<and> calories (extract_nutrients x) \<noteq> None"
  by (auto simp: new_candidate_def split: sum.splits option.splits)

lemma match_step_map_of:
  "\<exists>wm'. match_step E wl wm x = Inr wm'
     \<and> map_of wm' w =
        (case new_candidate E wl w x of
           None \<Rightarrow> map_of wm w
         | Some sc \<Rightarrow>
             (case map_of wm w of
                None \<Rightarrow> Some (x, sc, get_or (description x) '''')
              | Some (f, s0, d) \<Rightarrow>
                  if sc > s0 then Some (x, sc, get_or (description x) '''') else map_of wm w))"
proof (cases "match_whitelist_item E (get_or (description x) '''') wl")
  case (Inl e)
  with match_whitelist_item_never_raises show ?thesis by blast
next
  case (Inr r)
  show ?thesis
  proof (cases r)
    case None
    with Inr show ?thesis by (simp add: match_step_def new_candidate_def)
  next
    case (Some p)
    obtain m sc where p: "p = (m, sc)" by (cases p)
    show ?thesis
    proof (cases "calories (extract_nutrients x) = None")
      case True
      with Inr Some p show ?thesis by (simp add: match_step_def new_candidate_def)
    next
      case False
      show ?thesis
      proof (cases "m = w")
        case True
        with Inr Some p False show ?thesis
          by (auto simp: match_step_def new_candidate_def update_conv' split: option.splits)
      next
        case neq: False
        with Inr Some p False show ?thesis
          by (auto simp: match_step_def new_candidate_def update_conv' Let_def
              split: option.splits)
      qed
    qed
  qed
qed

lemma match_loop_snoc:
  "match_loop E wl wm (xs @ [x]) =
     (case match_loop E wl wm xs of Inl e \<Rightarrow> Inl e | Inr wm' \<Rightarrow> match_step E wl wm' x)"
  by (induction xs arbitrary: wm) (auto split: sum.splits)

lemma candidate_snoc:
  "candidate E wl (xs @ [x]) w i s \<longleftrightarrow>
     candidate E wl xs w i s \<or> (i = length xs \<and> new_candidate E wl w x = Some s)"
  by (auto simp: candidate_def nth_append new_candidate_Some)

lemma candidate_bound: "candidate E wl xs w i s \<Longrightarrow> i < length xs"
  by (simp add: candidate_def)

lemma best_step:
  fixes C C' :: "nat \<Rightarrow> rat \<Rightarrow> bool" and F F' :: "nat \<Rightarrow> 'a" and D D' :: "nat \<Rightarrow> 'b"
  assumes inv: "case r of
        None \<Rightarrow> (\<forall>i s. \<not> C i s)
      | Some (f, s, d) \<Rightarrow>
          (\<exists>i. C i s \<and> f = F i \<and> d = D i
             \<and> (\<forall>j s'. C j s' \<longrightarrow> s' \<le> s \<and> (s' = s \<longrightarrow> i \<le> j)))"
    and bound: "\<And>i s. C i s \<Longrightarrow> i < n"
    and C': "\<And>i s. C' i s \<longleftrightarrow> C i s \<or> (i = n \<and> new = Some s)"
    and F': "\<And>i. i < n \<Longrightarrow> F' i = F i" "F' n = x"
    and D': "\<And>i. i < n \<Longrightarrow> D' i = D i" "D' n = dx"
    and r': "r' = (case new of
                    None \<Rightarrow> r
                  | Some sc \<Rightarrow>
                      (case r of
                         None \<Rightarrow> Some (x, sc, dx)
                       | Some (f, s0, d) \<Rightarrow> if sc > s0 then Some (x, sc, dx) else r))"
  shows "case r' of
        None \<Rightarrow> (\<forall>i s. \<not> C' i s)
      | Some (f, s, d) \<Rightarrow>
          (\<exists>i. C' i s \<and> f = F' i \<and> d = D' i
             \<and> (\<forall>j s'. C' j s' \<longrightarrow> s' \<le> s \<and> (s' = s \<longrightarrow> i \<le> j)))"
proof (cases new)
  case None
  with r' have "r' = r" by simp
  moreover from None C' have "\<And>i s. C' i s = C i s" by simp
  ultimately show ?thesis
    using inv bound F'(1) D'(1) by (auto split: option.splits)
next
  case (Some sc)
  show ?thesis
  proof (cases r)
    case None
    with Some r' have r'': "r' = Some (x, sc, dx)" by simp
    from None inv have "\<And>i s. \<not> C i s" by simp
    with C' Some have "\<And>i s. C' i s \<longleftrightarrow> i = n \<and> s = sc" by auto
    with r'' F'(2) D'(2) show ?thesis by auto
  next
    case old: (Some t)
    obtain f s0 d where t: "t = (f, s0, d)" by (cases t)
    from inv old t obtain i where i: "C i s0" "f = F i" "d = D i"
      "\<And>j s'. C j s' \<Longrightarrow> s' \<le> s0 \<and> (s' = s0 \<longrightarrow> i \<le> j)"
      by auto
    from bound i(1) have "i < n" by blast
    show ?thesis
    proof (cases "sc > s0")
      case True
      with Some old t r' have r'': "r' = Some (x, sc, dx)" by simp
      have "C' n sc" using C' Some by simp
      moreover have "s' \<le> sc \<and> (s' = sc \<longrightarrow> n \<le> j)" if "C' j s'" for j s'
      proof -
        from that C' have "C j s' \<or> (j = n \<and> s' = sc)" using Some by auto
        then show ?thesis
        proof
          assume "C j s'"
          from i(4) [OF this] True show ?thesis by auto
        next
          assume "j = n \<and> s' = sc"
          then show ?thesis by simp
        qed
      qed
      ultimately show ?thesis using r'' F'(2) D'(2) by auto
    next
      case False
      with Some old t r' have r'': "r' = Some (f, s0, d)" by simp
      have "C' i s0" using C' i(1) by simp
      moreover have "f = F' i" "d = D' i" using i(2,3) F'(1) D'(1) \<open>i < n\<close> by simp_all
      moreover have "s' \<le> s0 \<and> (s' = s0 \<longrightarrow> i \<le> j)" if "C' j s'" for j s'
      proof -
        from that C' have "C j s' \<or> (j = n \<and> s' = sc)" using Some by auto
        then show ?thesis
        proof
          assume "C j s'"
          from i(4) [OF this] show ?thesis .
        next
          assume "j = n \<and> s' = sc"
          with False \<open>i < n\<close> show ?thesis by auto
        qed
      qed
      ultimately show ?thesis using r'' by auto
    qed
  qed
qed

text \<open>
  C7, as amended. A record is a candidate for a whitelist item when
  \<open>match_whitelist_item\<close> maps its description to that item and the record has a
  calories value; a record without calories is skipped by the pass and can displace
  nothing. The pass raises on no input, and for every whitelist item \<open>w\<close>: if no record
  is a candidate for \<open>w\<close>, the result has no entry for \<open>w\<close>; otherwise the entry of \<open>w\<close> is
  a candidate (its record, its score and its description) whose score is the highest
  among the candidates for \<open>w\<close>, and among the candidates with that score it is the
  first in the order of the input.
\<close>

theorem extraction_pass_retains_best:
  "\<exists>wm. extraction_pass E wl sr_legacy_data = Inr wm
     \<and> (case map_of wm w of
          None \<Rightarrow> (\<forall>i s. \<not> candidate E wl sr_legacy_data w i s)
        | Some (food_item, score, desc) \<Rightarrow>
            (\<exists>i. candidate E wl sr_legacy_data w i score
               \<and> food_item = sr_legacy_data ! i
               \<and> desc = get_or (description (sr_legacy_data ! i)) ''''
               \<and> (\<forall>j s'. candidate E wl sr_legacy_data w j s'
                     \<longrightarrow> s' \<le> score \<and> (s' = score \<longrightarrow> i \<le> j))))"
  unfolding extraction_pass_def
proof (induction sr_legacy_data rule: rev_induct)
  case Nil
  show ?case by (simp add: candidate_def)
next
  case (snoc x xs)
  then obtain wm where wm: "match_loop E wl [] xs = Inr wm"
    and inv: "case map_of wm w of
          None \<Rightarrow> (\<forall>i s. \<not> candidate E wl xs w i s)
        | Some (food_item, score, desc) \<Rightarrow>
            (\<exists>i. candidate E wl xs w i score
               \<and> food_item = xs ! i
               \<and> desc = get_or (description (xs ! i)) ''''
               \<and> (\<forall>j s'. candidate E wl xs w j s'
                     \<longrightarrow> s' \<le> score \<and> (s' = score \<longrightarrow> i \<le> j)))"
    by blast
  from match_step_map_of [of E wl wm x w] obtain wm'
    where step: "match_step E wl wm x = Inr wm'"
      and r': "map_of wm' w =
        (case new_candidate E wl w x of
           None \<Rightarrow> map_of wm w
         | Some sc \<Rightarrow>
             (case map_of wm w of
                None \<Rightarrow> Some (x, sc, get_or (description x) '''')
              | Some (f, s0, d) \<Rightarrow>
                  if sc > s0 then Some (x, sc, get_or (description x) '''') else map_of wm w))"
    by blast
  have loop: "match_loop E wl [] (xs @ [x]) = Inr wm'"
    by (simp add: match_loop_snoc wm step)
  have "case map_of wm' w of
          None \<Rightarrow> (\<forall>i s. \<not> candidate E wl (xs @ [x]) w i s)
        | Some (food_item, score, desc) \<Rightarrow>
            (\<exists>i. candidate E wl (xs @ [x]) w i score
               \<and> food_item = (xs @ [x]) ! i
               \<and> desc = get_or (description ((xs @ [x]) ! i)) ''''
               \<and> (\<forall>j s'. candidate E wl (xs @ [x]) w j s'
                     \<longrightarrow> s' \<le> score \<and> (s' = score \<longrightarrow> i \<le> j)))"
  proof (rule best_step [where C = "candidate E wl xs w" and n = "length xs"
        and F = "\<lambda>i. xs ! i" and D = "\<lambda>i. get_or (description (xs ! i)) ''''"
        and new = "new_candidate E wl w x" and x = x and dx = "get_or (description x) ''''"
        and r = "map_of wm w"])
    show "case map_of wm w of
          None \<Rightarrow> (\<forall>i s. \<not> candidate E wl xs w i s)
        | Some (food_item, score, desc) \<Rightarrow>
            (\<exists>i. candidate E wl xs w i score
               \<and> food_item = xs ! i
               \<and> desc = get_or (description (xs ! i)) ''''
               \<and> (\<forall>j s'. candidate E wl xs w j s'
                     \<longrightarrow> s' \<le> score \<and> (s' = score \<longrightarrow> i \<le> j)))"
      by (rule inv)
    show "\<And>i s. candidate E wl xs w i s \<Longrightarrow> i < length xs"
      by (rule candidate_bound)
    show "\<And>i s. candidate E wl (xs @ [x]) w i s
        = (candidate E wl xs w i s \<or> i = length xs \<and> new_candidate E wl w x = Some s)"
      by (rule candidate_snoc)
    show "\<And>i. i < length xs \<Longrightarrow> (xs @ [x]) ! i = xs ! i"
      by (simp add: nth_append)
    show "(xs @ [x]) ! length xs = x" by simp
    show "\<And>i. i < length xs \<Longrightarrow>
        get_or (description ((xs @ [x]) ! i)) '''' = get_or (description (xs ! i)) ''''"
      by (simp add: nth_append)
    show "get_or (description ((xs @ [x]) ! length xs)) '''' = get_or (description x) ''''"
      by simp
    show "map_of wm' w =
        (case new_candidate E wl w x of
           None \<Rightarrow> map_of wm w
         | Some sc \<Rightarrow>
             (case map_of wm w of
                None \<Rightarrow> Some (x, sc, get_or (description x) '''')
              | Some (f, s0, d) \<Rightarrow>
                  if sc > s0 then Some (x, sc, get_or (description x) '''') else map_of wm w))"
      by (rule r')
  qed
  with loop show ?case by blast
qed

theorem extraction_pass_retains_best_witness:
  "extraction_pass (\<lambda>_ _ _ _. None) [''chicken'']
     [\<lparr>description = Some ''Chicken breast'', sr_fdcId = Some (PyInt 1),
        foodNutrients = Some [\<lparr>number = Some ''208'', amount = Some 120\<rparr>]\<rparr>,
      \<lparr>description = Some ''Chicken'', sr_fdcId = Some (PyInt 2),
        foodNutrients = Some [\<lparr>number = Some ''203'', amount = Some 20\<rparr>]\<rparr>,
      \<lparr>description = Some ''chicken'', sr_fdcId = Some (PyInt 3),
        foodNutrients = Some [\<lparr>number = Some ''208'', amount = Some 200\<rparr>]\<rparr>,
      \<lparr>description = Some ''CHICKEN!'', sr_fdcId = Some (PyInt 4),
        foodNutrients = Some [\<lparr>number = Some ''208'', amount = Some 50\<rparr>]\<rparr>]
   = Inr [(''chicken'',
           \<lparr>description = Some ''chicken'', sr_fdcId = Some (PyInt 3),
             foodNutrients = Some [\<lparr>number = Some ''208'', amount = Some 200\<rparr>]\<rparr>,
           100, ''chicken'')]
   \<and> (\<exists>i. candidate (\<lambda>_ _ _ _. None) [''chicken'']
     [\<lparr>description = Some ''Chicken breast'', sr_fdcId = Some (PyInt 1),
        foodNutrients = Some [\<lparr>number = Some ''208'', amount = Some 120\<rparr>]\<rparr>,
      \<lparr>description = Some ''Chicken'', sr_fdcId = Some (PyInt 2),
        foodNutrients = Some [\<lparr>number = Some ''203'', amount = Some 20\<rparr>]\<rparr>,
      \<lparr>description = Some ''chicken'', sr_fdcId = Some (PyInt 3),
        foodNutrients = Some [\<lparr>number = Some ''208'', amount = Some 200\<rparr>]\<rparr>,
      \<lparr>description = Some ''CHICKEN!'', sr_fdcId = Some (PyInt 4),
        foodNutrients = Some [\<lparr>number = Some ''208'', amount = Some 50\<rparr>]\<rparr>]
        ''chicken'' i 100
      \<and> (\<forall>j s'. candidate (\<lambda>_ _ _ _. None) [''chicken'']
     [\<lparr>description = Some ''Chicken breast'', sr_fdcId = Some (PyInt 1),
        foodNutrients = Some [\<lparr>number = Some ''208'', amount = Some 120\<rparr>]\<rparr>,
      \<lparr>description = Some ''Chicken'', sr_fdcId = Some (PyInt 2),
        foodNutrients = Some [\<lparr>number = Some ''203'', amount = Some 20\<rparr>]\<rparr>,
      \<lparr>description = Some ''chicken'', sr_fdcId = Some (PyInt 3),
        foodNutrients = Some [\<lparr>number = Some ''208'', amount = Some 200\<rparr>]\<rparr>,
      \<lparr>description = Some ''CHICKEN!'', sr_fdcId = Some (PyInt 4),
        foodNutrients = Some [\<lparr>number = Some ''208'', amount = Some 50\<rparr>]\<rparr>]
        ''chicken'' j s' \<longrightarrow> s' \<le> 100 \<and> (s' = 100 \<longrightarrow> i \<le> j)))"
proof -
  let ?E = "(\<lambda>_ _ _ _. None) :: extract_one"
  let ?C = "\<lparr>description = Some ''chicken'', sr_fdcId = Some (PyInt 3),
             foodNutrients = Some [\<lparr>number = Some ''208'', amount = Some 200\<rparr>]\<rparr>"
  let ?data = "[\<lparr>description = Some ''Chicken breast'', sr_fdcId = Some (PyInt 1),
        foodNutrients = Some [\<lparr>number = Some ''208'', amount = Some 120\<rparr>]\<rparr>,
      \<lparr>description = Some ''Chicken'', sr_fdcId = Some (PyInt 2),
        foodNutrients = Some [\<lparr>number = Some ''203'', amount = Some 20\<rparr>]\<rparr>,
      ?C,
      \<lparr>description = Some ''CHICKEN!'', sr_fdcId = Some (PyInt 4),
        foodNutrients = Some [\<lparr>number = Some ''208'', amount = Some 50\<rparr>]\<rparr>]"
  have ev: "extraction_pass ?E [''chicken''] ?data = Inr [(''chicken'', ?C, 100, ''chicken'')]"
    by code_simp
  from extraction_pass_retains_best [of ?E "[''chicken'']" ?data "''chicken''"]
  obtain wm where wm: "extraction_pass ?E [''chicken''] ?data = Inr wm"
    and best: "case map_of wm ''chicken'' of
          None \<Rightarrow> (\<forall>i s. \<not> candidate ?E [''chicken''] ?data ''chicken'' i s)
        | Some (food_item, score, desc) \<Rightarrow>
            (\<exists>i. candidate ?E [''chicken''] ?data ''chicken'' i score
               \<and> food_item = ?data ! i
               \<and> desc = get_or (description (?data ! i)) ''''
               \<and> (\<forall>j s'. candidate ?E [''chicken''] ?data ''chicken'' j s'
                     \<longrightarrow> s' \<le> score \<and> (s' = score \<longrightarrow> i \<le> j)))"
    by blast
  from wm ev have "wm = [(''chicken'', ?C, 100, ''chicken'')]" by simp
  then have "map_of wm ''chicken'' = Some (?C, 100, ''chicken'')" by simp
  with best have "\<exists>i. candidate ?E [''chicken''] ?data ''chicken'' i 100
      \<and> (\<forall>j s'. candidate ?E [''chicken''] ?data ''chicken'' j s'
             \<longrightarrow> s' \<le> 100 \<and> (s' = 100 \<longrightarrow> i \<le> j))"
    by (simp only: option.case prod.case) blast
  with ev show ?thesis by (rule conjI)
qed

text \<open>
  The claim as stated ranks all the records that matched the item. Here the first
  record matches \<open>"chicken"\<close> with score 100 and has no calories, the second matches it
  with score 95: the pass retains the second.
\<close>

theorem missing_calories_counterexample:
  "extraction_pass (\<lambda>_ _ _ _. None) [''chicken'']
     [\<lparr>description = Some ''Chicken'', sr_fdcId = Some (PyInt 2),
        foodNutrients = Some [\<lparr>number = Some ''203'', amount = Some 20\<rparr>]\<rparr>,
      \<lparr>description = Some ''Chicken breast'', sr_fdcId = Some (PyInt 1),
        foodNutrients = Some [\<lparr>number = Some ''208'', amount = Some 120\<rparr>]\<rparr>]
   = Inr [(''chicken'',
           \<lparr>description = Some ''Chicken breast'', sr_fdcId = Some (PyInt 1),
             foodNutrients = Some [\<lparr>number = Some ''208'', amount = Some 120\<rparr>]\<rparr>,
           95, ''Chicken breast'')]
   \<and> match_whitelist_item (\<lambda>_ _ _ _. None) ''Chicken'' [''chicken'']
       = Inr (Some (''chicken'', 100))
   \<and> match_whitelist_item (\<lambda>_ _ _ _. None) ''Chicken breast'' [''chicken'']
       = Inr (Some (''chicken'', 95))"
  by code_simp

end
